theory Spec2Isabelle
  imports Main "HOL-Library.Sublist"
begin

section \<open>Text, bytes and exceptions\<close>

text \<open>
  A Python \<open>str\<close> is a sequence of Unicode code points; a code point is modelled as a
  natural number and a \<open>str\<close> as the list of its code points. File contents are
  sequences of bytes, again natural numbers (below 256). String literals of the source
  are written with \<open>lit\<close>, which maps each ASCII character to its code point.
\<close>

type_synonym str = "nat list"

abbreviation lit :: "string \<Rightarrow> str" where
  "lit s \<equiv> map of_char s"

text \<open>
  The exceptions that leave the functions of \<open>server.py\<close>. \<open>FileNotFoundError\<close> and
  \<open>RuntimeError\<close> are raised by the source itself and carry their message;
  \<open>PlaywrightError\<close> is whatever the browser-automation library raises from
  \<open>start\<close>, \<open>launch\<close> or \<open>new_context\<close>; \<open>UnicodeDecodeError\<close> is raised by
  \<open>read_text\<close> on bytes that are not UTF-8, \<open>IsADirectoryError\<close> by opening a
  directory.
\<close>

datatype error =
    FileNotFoundError str
  | RuntimeError str
  | PlaywrightError str
  | UnicodeDecodeError
  | IsADirectoryError

section \<open>The command executor\<close>









section \<open>The resource reader\<close>























section \<open>The browser session\<close>

text \<open>
  The browser-automation library is outside the program. Its behaviour is a parameter:
  for the \<open>k\<close>-th call of \<open>async_playwright().start()\<close>, of \<open>chromium.launch\<close>
  and of \<open>new_context\<close> (counted from 0 in the order the calls are issued) it says whether
  the call raises, and with which message.
\<close>

record engine =
  start_raises :: "nat \<Rightarrow> str option"
  launch_raises :: "nat \<Rightarrow> str option"
  new_context_raises :: "nat \<Rightarrow> str option"

text \<open>
  The state of the process: the two module globals \<open>_browser\<close> and \<open>_browser_context\<close>,
  and what has happened outside so far. Every successful launch makes a new \<open>Browser\<close>
  object, identified by the number of the launch call that made it; likewise a context is
  identified by the number of its \<open>new_context\<close> call. \<open>engines\<close> lists the browsers
  launched and \<open>contexts\<close> the contexts created, each with its browser; the program never
  closes either.
\<close>

record state =
  browser :: "nat option"
  browser_context :: "nat option"
  starts :: nat
  launches :: nat
  creations :: nat
  engines :: "nat list"
  contexts :: "(nat \<times> nat) list"

definition initial :: state where
  "initial = \<lparr>browser = None, browser_context = None, starts = 0, launches = 0,
     creations = 0, engines = [], contexts = []\<rparr>"

text \<open>
  \<open>get_browser\<close> and \<open>get_browser_context\<close> when the call runs from its first line to its
  return with nothing else running in between.
\<close>

definition get_browser :: "engine \<Rightarrow> state \<Rightarrow> (error + nat) \<times> state" where
  "get_browser E s =
     (case browser s of
        Some b \<Rightarrow> (Inr b, s)
      | None \<Rightarrow>
          (let s1 = s\<lparr>starts := starts s + 1\<rparr>
           in case start_raises E (starts s) of
                Some m \<Rightarrow> (Inl (PlaywrightError m), s1)
              | None \<Rightarrow>
                  (let s2 = s1\<lparr>launches := launches s1 + 1\<rparr>
                   in case launch_raises E (launches s1) of
                        Some m \<Rightarrow> (Inl (PlaywrightError m), s2)
                      | None \<Rightarrow>
                          (Inr (launches s1),
                           s2\<lparr>browser := Some (launches s1),
                              engines := engines s2 @ [launches s1]\<rparr>))))"

definition get_browser_context :: "engine \<Rightarrow> state \<Rightarrow> (error + nat) \<times> state" where
  "get_browser_context E s =
     (case browser_context s of
        Some c \<Rightarrow> (Inr c, s)
      | None \<Rightarrow>
          (case get_browser E s of
             (Inl e, s1) \<Rightarrow> (Inl e, s1)
           | (Inr b, s1) \<Rightarrow>
               (let s2 = s1\<lparr>creations := creations s1 + 1\<rparr>
                in case new_context_raises E (creations s1) of
                     Some m \<Rightarrow> (Inl (PlaywrightError m), s2)
                   | None \<Rightarrow>
                       (Inr (creations s1),
                        s2\<lparr>browser_context := Some (creations s1),
                           contexts := contexts s2 @ [(creations s1, b)]\<rparr>))))"

text \<open>Calls made one after the other: \<open>n\<close> calls of one function, and a list of calls.\<close>

fun calls :: "(state \<Rightarrow> 'r \<times> state) \<Rightarrow> nat \<Rightarrow> state \<Rightarrow> 'r list \<times> state" where
  "calls f 0 s = ([], s)"
| "calls f (Suc n) s =
     (case f s of (r, s1) \<Rightarrow> (case calls f n s1 of (rs, s2) \<Rightarrow> (r # rs, s2)))"

datatype op = GetBrowser | GetBrowserContext

definition call :: "engine \<Rightarrow> op \<Rightarrow> state \<Rightarrow> (error + nat) \<times> state" where
  "call E f s = (case f of GetBrowser \<Rightarrow> get_browser E s | GetBrowserContext \<Rightarrow> get_browser_context E s)"

definition exec :: "engine \<Rightarrow> op list \<Rightarrow> state \<Rightarrow> state" where
  "exec E fs s = foldl (\<lambda>s f. snd (call E f s)) s fs"

subsection \<open>Coroutines\<close>

text \<open>
  Both functions are coroutines: a call runs until it reaches an \<open>await\<close> of the library,
  is suspended there, and other calls may run before it is resumed. A task is a call
  together with the place where it stands: not yet begun, suspended in one of the three
  awaits (with the number of the library call it waits for, and for \<open>new_context\<close> the
  browser it was called on), returned or raised. \<open>advance\<close> runs a task from where it
  stands to its next suspension or to its end; nothing else runs in between.
  \<open>await get_browser()\<close> inside \<open>get_browser_context\<close> runs the body of \<open>get_browser\<close>
  in the same task.
\<close>

datatype task =
    Call op
  | AwaitStart op nat
  | AwaitLaunch op nat
  | AwaitNewContext nat nat
  | Returned nat
  | Raised error

fun advance :: "engine \<Rightarrow> task \<Rightarrow> state \<Rightarrow> task \<times> state" where
  "advance E (Call GetBrowser) s =
     (case browser s of
        Some b \<Rightarrow> (Returned b, s)
      | None \<Rightarrow> (AwaitStart GetBrowser (starts s), s\<lparr>starts := starts s + 1\<rparr>))"
| "advance E (Call GetBrowserContext) s =
     (case browser_context s of
        Some c \<Rightarrow> (Returned c, s)
      | None \<Rightarrow>
          (case browser s of
             Some b \<Rightarrow> (AwaitNewContext b (creations s), s\<lparr>creations := creations s + 1\<rparr>)
           | None \<Rightarrow> (AwaitStart GetBrowserContext (starts s), s\<lparr>starts := starts s + 1\<rparr>)))"
| "advance E (AwaitStart f k) s =
     (case start_raises E k of
        Some m \<Rightarrow> (Raised (PlaywrightError m), s)
      | None \<Rightarrow> (AwaitLaunch f (launches s), s\<lparr>launches := launches s + 1\<rparr>))"
| "advance E (AwaitLaunch f j) s =
     (case launch_raises E j of
        Some m \<Rightarrow> (Raised (PlaywrightError m), s)
      | None \<Rightarrow>
          (let s1 = s\<lparr>browser := Some j, engines := engines s @ [j]\<rparr>
           in case f of
                GetBrowser \<Rightarrow> (Returned j, s1)
              | GetBrowserContext \<Rightarrow>
                  (AwaitNewContext j (creations s1), s1\<lparr>creations := creations s1 + 1\<rparr>)))"
| "advance E (AwaitNewContext b i) s =
     (case new_context_raises E i of
        Some m \<Rightarrow> (Raised (PlaywrightError m), s)
      | None \<Rightarrow>
          (Returned i, s\<lparr>browser_context := Some i, contexts := contexts s @ [(i, b)]\<rparr>))"
| "advance E (Returned r) s = (Returned r, s)"
| "advance E (Raised e) s = (Raised e, s)"

text \<open>
  The event loop: a schedule names, turn by turn, the task that runs next.
\<close>

definition step :: "engine \<Rightarrow> state \<times> task list \<Rightarrow> nat \<Rightarrow> state \<times> task list" where
  "step E cfg i =
     (case cfg of
        (s, ts) \<Rightarrow>
          if i < length ts
          then (case advance E (ts ! i) s of (t, s1) \<Rightarrow> (s1, ts[i := t]))
          else (s, ts))"

definition run :: "engine \<Rightarrow> nat list \<Rightarrow> state \<times> task list \<Rightarrow> state \<times> task list" where
  "run E schedule cfg = foldl (step E) cfg schedule"

definition in_flight :: "task \<Rightarrow> bool" where
  "in_flight t =
     (case t of
        AwaitStart _ _ \<Rightarrow> True
      | AwaitLaunch _ _ \<Rightarrow> True
      | AwaitNewContext _ _ \<Rightarrow> True
      | _ \<Rightarrow> False)"

definition outcome :: "task \<Rightarrow> (error + nat) option" where
  "outcome t = (case t of Returned r \<Rightarrow> Some (Inr r) | Raised e \<Rightarrow> Some (Inl e) | _ \<Rightarrow> None)"

text \<open>A task run alone to its end: four turns are enough for either function.\<close>

definition alone :: "engine \<Rightarrow> op \<Rightarrow> state \<Rightarrow> state \<times> task list" where
  "alone E f s = run E [0, 0, 0, 0] (s, [Call f])"

text \<open>Two libraries for examples: one whose calls all succeed, one whose first launch fails.\<close>

definition all_succeed :: engine where
  "all_succeed =
     \<lparr>start_raises = (\<lambda>k. None), launch_raises = (\<lambda>k. None), new_context_raises = (\<lambda>k. None)\<rparr>"

definition first_launch_fails :: engine where
  "first_launch_fails =
     \<lparr>start_raises = (\<lambda>k. None),
      launch_raises = (\<lambda>k. if k = 0 then Some (lit ''Executable does not exist'') else None),
      new_context_raises = (\<lambda>k. None)\<rparr>"

text \<open>
  What calls made one after the other keep true: the browsers launched are exactly the one
  held in \<open>_browser\<close>, and there is a context exactly when \<open>_browser_context\<close> holds one.
\<close>

definition session_inv :: "state \<Rightarrow> bool" where
  "session_inv s \<longleftrightarrow>
     engines s = (case browser s of None \<Rightarrow> [] | Some b \<Rightarrow> [b]) \<and>
     length (contexts s) = (case browser_context s of None \<Rightarrow> 0 | Some c \<Rightarrow> 1)"

definition ready :: state where
  "ready = \<lparr>browser = Some 0, browser_context = Some 0, starts = 1, launches = 1,
     creations = 1, engines = [0], contexts = [(0, 0)]\<rparr>"

section \<open>The stateless tools and prompts\<close>

text \<open>
  Every handler runs in the process and could read or write its globals, so each is a
  function of the state that returns its result and the state it leaves. Python's
  \<open>float\<close> stays abstract: its addition and its \<open>str\<close> are parameters.
\<close>

record 'f floats =
  float_add :: "'f \<Rightarrow> 'f \<Rightarrow> 'f"
  float_str :: "'f \<Rightarrow> str"

definition echo :: "str \<Rightarrow> state \<Rightarrow> str \<times> state" where
  "echo text s = (text, s)"

definition add :: "'f floats \<Rightarrow> 'f \<Rightarrow> 'f \<Rightarrow> state \<Rightarrow> 'f \<times> state" where
  "add F a b s = (float_add F a b, s)"

text \<open>\<open>hello_prompt\<close>: the argument is optional, with the default \<open>"world"\<close>.\<close>

definition hello_prompt :: "str option \<Rightarrow> state \<Rightarrow> str \<times> state" where
  "hello_prompt name s =
     (lit ''Hello, '' @ (case name of None \<Rightarrow> lit ''world'' | Some n \<Rightarrow> n)
        @ lit ''! I am an MCP server with browser capabilities. How can I help?'', s)"

fun join :: "str \<Rightarrow> str list \<Rightarrow> str" where
  "join sep [] = []"
| "join sep [x] = x"
| "join sep (x # y # ys) = x @ sep @ join sep (y # ys)"

definition sum_prompt :: "'f floats \<Rightarrow> 'f list \<Rightarrow> state \<Rightarrow> str \<times> state" where
  "sum_prompt F numbers s =
     (let nums = join (lit '', '') (map (float_str F) numbers)
      in (lit ''You are a calculator. Sum the following numbers and return only the number.''
            @ [0x0A] @ lit ''Numbers: '' @ nums, s))"

section \<open>The operation registry\<close>

datatype kind = Tool | Prompt | Resource

datatype 'e dispatch_error =
    UnknownOperationError
  | InvalidArgumentError str
  | DuplicateNameError
  | HandlerError 'e

text \<open>
  Modelled from the spec: the operation descriptor of section 3. The registry itself is
  the \<open>FastMCP\<close> application object, whose code is not part of \<open>server.py\<close>; the source
  only fills it through the decorators \<open>tool\<close>, \<open>prompt\<close> and \<open>resource\<close>. The declared
  parameter shape is the check \<open>op_validate\<close>, which names the offending field.
\<close>

record ('a, 'e, 'r) descriptor =
  op_kind :: kind
  op_name :: str
  op_validate :: "'a \<Rightarrow> str option"
  op_handler :: "'a \<Rightarrow> 'e + 'r"

text \<open>
  Modelled from the spec: \<open>register\<close> of section 4.1, missing from the source; it adds a
  descriptor under its (kind, name) key and fails with \<open>DuplicateNameError\<close> if the key
  already exists.
\<close>

definition registered :: "('a, 'e, 'r) descriptor list \<Rightarrow> kind \<Rightarrow> str \<Rightarrow> bool" where
  "registered reg k n = list_ex (\<lambda>d. op_kind d = k \<and> op_name d = n) reg"

definition register ::
  "('a, 'e, 'r) descriptor list \<Rightarrow> ('a, 'e, 'r) descriptor
     \<Rightarrow> 'e dispatch_error + ('a, 'e, 'r) descriptor list" where
  "register reg d =
     (if registered reg (op_kind d) (op_name d) then Inl DuplicateNameError else Inr (reg @ [d]))"

text \<open>
  Modelled from the spec: \<open>dispatch\<close> of section 4.1, missing from the source; it looks up
  the descriptor, validates the arguments against the declared parameter shape and invokes
  the handler, whose failure it propagates as \<open>HandlerError\<close>.
\<close>

definition dispatch ::
  "('a, 'e, 'r) descriptor list \<Rightarrow> kind \<Rightarrow> str \<Rightarrow> 'a \<Rightarrow> 'e dispatch_error + 'r" where
  "dispatch reg k n arguments =
     (case find (\<lambda>d. op_kind d = k \<and> op_name d = n) reg of
        None \<Rightarrow> Inl UnknownOperationError
      | Some d \<Rightarrow>
          (case op_validate d arguments of
             Some field \<Rightarrow> Inl (InvalidArgumentError field)
           | None \<Rightarrow>
               (case op_handler d arguments of
                  Inl e \<Rightarrow> Inl (HandlerError e)
                | Inr r \<Rightarrow> Inr r)))"

definition example_registry :: "(str, error, str) descriptor list" where
  "example_registry =
     [\<lparr>op_kind = Tool, op_name = lit ''echo'', op_validate = (\<lambda>text. None),
       op_handler = (\<lambda>text. Inr (fst (echo text initial)))\<rparr>]"

section \<open>Properties of the command executor\<close>






section \<open>Properties of the resource reader\<close>















section \<open>Properties of the browser session\<close>

subsection \<open>Calls made one after the other\<close>

lemma get_browser_memo: "browser s = Some b \<Longrightarrow> get_browser E s = (Inr b, s)"
  by (simp add: get_browser_def)

lemma get_browser_context_memo:
  "browser_context s = Some c \<Longrightarrow> get_browser_context E s = (Inr c, s)"
  by (simp add: get_browser_context_def)

lemma calls_fixed: "f s = (r, s) \<Longrightarrow> calls f n s = (replicate n r, s)"
  by (induction n) simp_all

lemma get_browser_success: "get_browser E s = (Inr h, s') \<Longrightarrow> browser s' = Some h"
  by (auto simp: get_browser_def Let_def split: option.splits)

lemma get_browser_context_success:
  "get_browser_context E s = (Inr c, s') \<Longrightarrow> browser_context s' = Some c"
  by (auto simp: get_browser_context_def Let_def split: option.splits sum.splits prod.splits)

text \<open>
  A call that runs alone in the event loop, from its first turn to its last, does what the
  function does.
\<close>

lemma alone_get_browser:
  "\<exists>t. alone E GetBrowser s = (snd (get_browser E s), [t]) \<and>
       outcome t = Some (fst (get_browser E s))"
  by (auto simp: alone_def run_def step_def get_browser_def outcome_def Let_def
      split: option.splits)

lemma alone_get_browser_context:
  "\<exists>t. alone E GetBrowserContext s = (snd (get_browser_context E s), [t]) \<and>
       outcome t = Some (fst (get_browser_context E s))"
  by (auto simp: alone_def run_def step_def get_browser_context_def get_browser_def
      outcome_def Let_def split: option.splits)

lemmas run_eval = run_def step_def all_succeed_def initial_def Let_def

text \<open>
  C1, as stated, fails. Two calls of \<open>get_browser\<close> begin while the session is
  uninitialized and take turns: both find \<open>_browser\<close> empty before either has stored a
  browser. Two launches occur, and the calls return two different browsers.
\<close>

theorem get_browser_concurrent_two_launches:
  "launches (fst (run all_succeed [0, 1, 0, 1, 0, 1]
      (initial, [Call GetBrowser, Call GetBrowser]))) = 2 \<and>
   snd (run all_succeed [0, 1, 0, 1, 0, 1]
      (initial, [Call GetBrowser, Call GetBrowser])) = [Returned 0, Returned 1]"
  by (simp add: run_eval)

text \<open>
  C1, amended. If \<open>get_browser\<close> is called \<open>n \<ge> 1\<close> times one after the other, each call
  returning before the next begins, while the session is uninitialized, and the library
  starts and launches without failure, then exactly one launch occurs and all \<open>n\<close> calls
  return the same browser. Nothing guards the initialization, so first calls that overlap
  each launch a browser of their own.
\<close>

theorem get_browser_sequential_one_launch:
  assumes "browser s = None"
    and "start_raises E (starts s) = None"
    and "launch_raises E (launches s) = None"
    and "0 < n"
  shows "fst (calls (get_browser E) n s) = replicate n (Inr (launches s)) \<and>
         launches (snd (calls (get_browser E) n s)) = launches s + 1 \<and>
         engines (snd (calls (get_browser E) n s)) = engines s @ [launches s]"
proof -
  let ?s1 = "s\<lparr>starts := starts s + 1, launches := launches s + 1,
     browser := Some (launches s), engines := engines s @ [launches s]\<rparr>"
  from assms(4) obtain k where n: "n = Suc k" by (cases n) auto
  have first: "get_browser E s = (Inr (launches s), ?s1)"
    using assms(1,2,3) by (simp add: get_browser_def)
  have "get_browser E ?s1 = (Inr (launches s), ?s1)"
    by (rule get_browser_memo) simp
  then have "calls (get_browser E) k ?s1 = (replicate k (Inr (launches s)), ?s1)"
    by (rule calls_fixed)
  with first show ?thesis by (simp add: n)
qed

theorem get_browser_sequential_one_launch_witness:
  "browser initial = None \<and> (0::nat) < 3 \<and>
   fst (calls (get_browser all_succeed) 3 initial) = [Inr 0, Inr 0, Inr 0] \<and>
   launches (snd (calls (get_browser all_succeed) 3 initial)) = 1 \<and>
   engines (snd (calls (get_browser all_succeed) 3 initial)) = [0]"
  using get_browser_sequential_one_launch [where s = initial and E = all_succeed and n = 3]
  by (simp add: all_succeed_def initial_def numeral_3_eq_3)

text \<open>
  C2. If the start of the library or the launch of the browser inside \<open>get_browser\<close>
  raises, the call fails with that exception (the spec's SessionInitError), \<open>_browser\<close>
  is still empty afterwards and nothing else of the session has changed; the next call
  starts the library again, and returns a newly launched browser if the library then
  succeeds.
\<close>

theorem get_browser_launch_failure:
  assumes "browser s = None"
    and "start_raises E (starts s) = Some m \<or>
         (start_raises E (starts s) = None \<and> launch_raises E (launches s) = Some m)"
  shows "fst (get_browser E s) = Inl (PlaywrightError m) \<and>
         browser (snd (get_browser E s)) = None \<and>
         browser_context (snd (get_browser E s)) = browser_context s \<and>
         engines (snd (get_browser E s)) = engines s \<and>
         starts (snd (get_browser E (snd (get_browser E s))))
           = starts (snd (get_browser E s)) + 1 \<and>
         (start_raises E (starts (snd (get_browser E s))) = None \<and>
          launch_raises E (launches (snd (get_browser E s))) = None \<longrightarrow>
            fst (get_browser E (snd (get_browser E s)))
              = Inr (launches (snd (get_browser E s))))"
  using assms by (auto simp: get_browser_def Let_def split: option.splits)

theorem get_browser_launch_failure_witness:
  "browser initial = None \<and>
   launch_raises first_launch_fails (launches initial) = Some (lit ''Executable does not exist'') \<and>
   fst (get_browser first_launch_fails initial)
     = Inl (PlaywrightError (lit ''Executable does not exist'')) \<and>
   browser (snd (get_browser first_launch_fails initial)) = None \<and>
   fst (get_browser first_launch_fails (snd (get_browser first_launch_fails initial))) = Inr 1"
  using get_browser_launch_failure
      [where s = initial and E = first_launch_fails and m = "lit ''Executable does not exist''"]
  by (simp add: first_launch_fails_def initial_def get_browser_def)

text \<open>
  C3, as stated, fails. Two calls of \<open>get_browser_context\<close> begin while the session is
  uninitialized. The first finishes and returns context 0: the first successful call. The
  second, suspended since before, then launches a second browser, creates context 1 and
  stores both. A third call, made after all this, returns context 1, not the first result.
\<close>

theorem get_browser_context_first_result_replaced:
  "snd (run all_succeed [0, 1, 0, 0, 0]
      (initial, [Call GetBrowserContext, Call GetBrowserContext, Call GetBrowserContext]))
     = [Returned 0, AwaitStart GetBrowserContext 1, Call GetBrowserContext] \<and>
   snd (run all_succeed [0, 1, 0, 0, 0, 1, 1, 1, 2]
      (initial, [Call GetBrowserContext, Call GetBrowserContext, Call GetBrowserContext]))
     = [Returned 0, Returned 1, Returned 1] \<and>
   launches (fst (run all_succeed [0, 1, 0, 0, 0, 1, 1, 1, 2]
      (initial, [Call GetBrowserContext, Call GetBrowserContext, Call GetBrowserContext]))) = 2"
  by (simp add: run_eval)

text \<open>
  C3, amended. After a first successful call of \<open>get_browser\<close>, or of
  \<open>get_browser_context\<close>, every further call of the same function, the calls made one
  after the other, returns the first result and leaves the whole state as it is: no
  launch, no new context. A first call that was already suspended when the first success
  happened is not covered: it stores a browser and a context of its own.
\<close>

theorem get_browser_idempotent:
  "(fst (get_browser E s) = Inr h \<longrightarrow>
      calls (get_browser E) n (snd (get_browser E s))
        = (replicate n (Inr h), snd (get_browser E s))) \<and>
   (fst (get_browser_context E s) = Inr c \<longrightarrow>
      calls (get_browser_context E) n (snd (get_browser_context E s))
        = (replicate n (Inr c), snd (get_browser_context E s)))"
proof (intro conjI impI)
  assume "fst (get_browser E s) = Inr h"
  then have "get_browser E s = (Inr h, snd (get_browser E s))"
    by (metis prod.collapse)
  then have "browser (snd (get_browser E s)) = Some h"
    by (rule get_browser_success)
  then have "get_browser E (snd (get_browser E s)) = (Inr h, snd (get_browser E s))"
    by (rule get_browser_memo)
  then show "calls (get_browser E) n (snd (get_browser E s))
      = (replicate n (Inr h), snd (get_browser E s))"
    by (rule calls_fixed)
next
  assume "fst (get_browser_context E s) = Inr c"
  then have "get_browser_context E s = (Inr c, snd (get_browser_context E s))"
    by (metis prod.collapse)
  then have "browser_context (snd (get_browser_context E s)) = Some c"
    by (rule get_browser_context_success)
  then have "get_browser_context E (snd (get_browser_context E s))
      = (Inr c, snd (get_browser_context E s))"
    by (rule get_browser_context_memo)
  then show "calls (get_browser_context E) n (snd (get_browser_context E s))
      = (replicate n (Inr c), snd (get_browser_context E s))"
    by (rule calls_fixed)
qed

theorem get_browser_idempotent_witness:
  "fst (get_browser all_succeed initial) = Inr 0 \<and>
   calls (get_browser all_succeed) 2 (snd (get_browser all_succeed initial))
     = ([Inr 0, Inr 0], snd (get_browser all_succeed initial)) \<and>
   fst (get_browser_context all_succeed initial) = Inr 0 \<and>
   calls (get_browser_context all_succeed) 2 (snd (get_browser_context all_succeed initial))
     = ([Inr 0, Inr 0], snd (get_browser_context all_succeed initial))"
  using get_browser_idempotent
      [where E = all_succeed and s = initial and h = 0 and n = 2 and c = 0]
  by (simp add: all_succeed_def initial_def get_browser_def get_browser_context_def
      numeral_2_eq_2)

subsection \<open>The singleton\<close>

lemma inv_get_browser: "session_inv s \<Longrightarrow> session_inv (snd (get_browser E s))"
  by (auto simp: session_inv_def get_browser_def Let_def split: option.splits)

lemma inv_get_browser_context:
  "session_inv s \<Longrightarrow> session_inv (snd (get_browser_context E s))"
  by (auto simp: session_inv_def get_browser_context_def get_browser_def Let_def
      split: option.splits sum.splits prod.splits)

lemma inv_call: "session_inv s \<Longrightarrow> session_inv (snd (call E f s))"
  by (cases f) (simp_all add: call_def inv_get_browser inv_get_browser_context)

lemma inv_exec: "session_inv s \<Longrightarrow> session_inv (exec E fs s)"
  unfolding exec_def by (induction fs arbitrary: s) (simp_all add: inv_call)

lemma inv_initial: "session_inv initial"
  by (simp add: session_inv_def initial_def)

lemma inv_bound: "session_inv s \<Longrightarrow> length (engines s) \<le> 1 \<and> length (contexts s) \<le> 1"
  by (auto simp: session_inv_def split: option.splits)

text \<open>
  C4, as stated, fails. Two calls of \<open>get_browser_context\<close> that take turns from the
  initial state leave two browsers and two contexts, one pair for each call.
\<close>

theorem two_engines_two_contexts:
  "engines (fst (run all_succeed [0, 1, 0, 1, 0, 1, 0, 1]
      (initial, [Call GetBrowserContext, Call GetBrowserContext]))) = [0, 1] \<and>
   contexts (fst (run all_succeed [0, 1, 0, 1, 0, 1, 0, 1]
      (initial, [Call GetBrowserContext, Call GetBrowserContext]))) = [(0, 0), (1, 1)]"
  by (simp add: run_eval)

text \<open>
  C4, amended. In every state reached from the start of the process by calls of
  \<open>get_browser\<close> and \<open>get_browser_context\<close> made one after the other, whatever the
  library does, at most one browser and at most one context exist. Calls that overlap
  before the session is initialized can each create their own.
\<close>

theorem sequential_singleton:
  "length (engines (exec E fs initial)) \<le> 1 \<and> length (contexts (exec E fs initial)) \<le> 1"
  using inv_bound [OF inv_exec [OF inv_initial]] by blast

subsection \<open>Ready is not left\<close>

lemma advance_keeps_browser:
  "advance E t s = (t', s') \<Longrightarrow> browser s \<noteq> None \<Longrightarrow> browser s' \<noteq> None"
  by (cases "(E, t, s)" rule: advance.cases)
    (auto simp: Let_def split: option.splits op.splits)

lemma advance_keeps_context:
  "advance E t s = (t', s') \<Longrightarrow> browser_context s \<noteq> None \<Longrightarrow> browser_context s' \<noteq> None"
  by (cases "(E, t, s)" rule: advance.cases)
    (auto simp: Let_def split: option.splits op.splits)

lemma step_keeps:
  "step E (s, ts) i = (s', ts') \<Longrightarrow>
     (browser s \<noteq> None \<longrightarrow> browser s' \<noteq> None) \<and>
     (browser_context s \<noteq> None \<longrightarrow> browser_context s' \<noteq> None)"
  by (auto simp: step_def split: if_splits prod.splits
      dest: advance_keeps_browser advance_keeps_context)

lemma run_keeps:
  "run E sched (s, ts) = (s', ts') \<Longrightarrow>
     (browser s \<noteq> None \<longrightarrow> browser s' \<noteq> None) \<and>
     (browser_context s \<noteq> None \<longrightarrow> browser_context s' \<noteq> None)"
proof (induction sched arbitrary: s ts)
  case Nil
  then show ?case by (simp add: run_def)
next
  case (Cons i sched)
  obtain s1 ts1 where st: "step E (s, ts) i = (s1, ts1)"
    by (cases "step E (s, ts) i")
  with Cons.prems have "run E sched (s1, ts1) = (s', ts')"
    by (simp add: run_def)
  from Cons.IH [OF this] step_keeps [OF st] show ?case by blast
qed

lemma advance_quiet:
  assumes "browser s = Some b" "browser_context s = Some c" "\<not> in_flight t"
  shows "snd (advance E t s) = s \<and> \<not> in_flight (fst (advance E t s))"
  using assms by (cases "(E, t, s)" rule: advance.cases) (auto simp: in_flight_def)

lemma step_quiet:
  assumes "browser s = Some b" "browser_context s = Some c"
    and "list_all (\<lambda>t. \<not> in_flight t) ts"
  shows "fst (step E (s, ts) i) = s \<and> list_all (\<lambda>t. \<not> in_flight t) (snd (step E (s, ts) i))"
proof (cases "i < length ts")
  case False
  with assms show ?thesis by (simp add: step_def)
next
  case True
  with assms(3) have nf: "\<not> in_flight (ts ! i)"
    by (simp add: list_all_length)
  from advance_quiet [OF assms(1,2) nf, of E] True assms(3)
  show ?thesis
    by (auto simp: step_def list_all_iff split: prod.splits
        dest!: set_update_subset_insert [THEN subsetD])
qed

lemma run_quiet:
  assumes "browser s = Some b" "browser_context s = Some c"
    and "list_all (\<lambda>t. \<not> in_flight t) ts"
  shows "fst (run E sched (s, ts)) = s \<and>
         list_all (\<lambda>t. \<not> in_flight t) (snd (run E sched (s, ts)))"
  using assms(3)
proof (induction sched arbitrary: ts)
  case Nil
  then show ?case by (simp add: run_def)
next
  case (Cons i sched)
  from step_quiet [OF assms(1,2) Cons.prems, of E i]
  obtain ts1 where st: "step E (s, ts) i = (s, ts1)"
    and q: "list_all (\<lambda>t. \<not> in_flight t) ts1"
    by (cases "step E (s, ts) i") auto
  from Cons.IH [OF q] st show ?case by (simp add: run_def)
qed

text \<open>
  C7, as stated, fails. A call of \<open>get_browser\<close> is suspended before the session is
  initialized; a call of \<open>get_browser_context\<close> then runs to its end and leaves the
  session ready, with browser 0 and context 0. When the suspended call is resumed it
  launches browser 1 and stores it: the memoized browser has been replaced.
\<close>

theorem ready_browser_replaced:
  "browser (fst (run all_succeed [0, 1, 1, 1, 1]
      (initial, [Call GetBrowser, Call GetBrowserContext]))) = Some 0 \<and>
   browser_context (fst (run all_succeed [0, 1, 1, 1, 1]
      (initial, [Call GetBrowser, Call GetBrowserContext]))) = Some 0 \<and>
   snd (run all_succeed [0, 1, 1, 1, 1]
      (initial, [Call GetBrowser, Call GetBrowserContext]))
     = [AwaitStart GetBrowser 0, Returned 0] \<and>
   browser (fst (run all_succeed [0, 1, 1, 1, 1, 0, 0]
      (initial, [Call GetBrowser, Call GetBrowserContext]))) = Some 1 \<and>
   snd (run all_succeed [0, 1, 1, 1, 1, 0, 0]
      (initial, [Call GetBrowser, Call GetBrowserContext]))
     = [Returned 1, Returned 0]"
  by (simp add: run_eval)

text \<open>
  C7, amended. Once the session is ready, whatever calls run and however they take
  turns, the browser and the context stay memoized: nothing resets them or tears them
  down. If moreover no call is suspended at that moment, so that every call still to run
  begins after the session became ready, the state never changes again: nothing is
  replaced, launched or created. Only a first call that was already suspended can
  overwrite the memoized browser or context with its own.
\<close>

theorem ready_is_terminal:
  assumes "browser s \<noteq> None" and "browser_context s \<noteq> None"
  shows "browser (fst (run E sched (s, ts))) \<noteq> None \<and>
         browser_context (fst (run E sched (s, ts))) \<noteq> None \<and>
         (list_all (\<lambda>t. \<not> in_flight t) ts \<longrightarrow> fst (run E sched (s, ts)) = s)"
proof -
  obtain s' ts' where r: "run E sched (s, ts) = (s', ts')"
    by (cases "run E sched (s, ts)")
  from run_keeps [OF r] assms have "browser s' \<noteq> None \<and> browser_context s' \<noteq> None"
    by blast
  moreover from assms obtain b c where "browser s = Some b" "browser_context s = Some c"
    by auto
  then have "list_all (\<lambda>t. \<not> in_flight t) ts \<longrightarrow> fst (run E sched (s, ts)) = s"
    using run_quiet [of s b c ts E sched] by blast
  ultimately show ?thesis by (simp add: r)
qed

theorem ready_is_terminal_witness:
  "browser ready \<noteq> None \<and> browser_context ready \<noteq> None \<and>
   list_all (\<lambda>t. \<not> in_flight t) [Call GetBrowser, Call GetBrowserContext, Returned 0] \<and>
   run all_succeed [0, 1, 2, 0]
       (ready, [Call GetBrowser, Call GetBrowserContext, Returned 0])
     = (ready, [Returned 0, Returned 0, Returned 0])"
  using ready_is_terminal
      [where s = ready and E = all_succeed and sched = "[0, 1, 2, 0]"
         and ts = "[Call GetBrowser, Call GetBrowserContext, Returned 0]"]
  by (simp add: run_def step_def all_succeed_def ready_def in_flight_def)

section \<open>Properties of the stateless tools and prompts\<close>

text \<open>
  C10. \<open>echo\<close>, \<open>add\<close>, \<open>hello_prompt\<close> and \<open>sum_prompt\<close> return, for equal
  arguments, equal results in any two states of the process, and leave the state,
  the browser session included, as it was.
\<close>

theorem stateless_tools:
  "fst (echo text s1) = fst (echo text s2) \<and> snd (echo text s1) = s1 \<and>
   fst (add F a b s1) = fst (add F a b s2) \<and> snd (add F a b s1) = s1 \<and>
   fst (hello_prompt name s1) = fst (hello_prompt name s2) \<and> snd (hello_prompt name s1) = s1 \<and>
   fst (sum_prompt F numbers s1) = fst (sum_prompt F numbers s2) \<and>
   snd (sum_prompt F numbers s1) = s1"
  by (simp add: echo_def add_def hello_prompt_def sum_prompt_def Let_def)

section \<open>Properties of the operation registry\<close>

lemma find_unregistered:
  "\<not> registered reg k n \<Longrightarrow> find (\<lambda>d. op_kind d = k \<and> op_name d = n) reg = None"
  by (simp add: registered_def list_ex_iff find_None_iff)

text \<open>
  C8. For every kind and name under which no descriptor is registered, whatever the
  arguments, \<open>dispatch\<close> fails with \<open>UnknownOperationError\<close>, and so with no other error.
\<close>

theorem dispatch_unregistered:
  "\<not> registered reg k n \<Longrightarrow> dispatch reg k n arguments = Inl UnknownOperationError"
  by (simp add: dispatch_def find_unregistered)

theorem dispatch_unregistered_witness:
  "\<not> registered example_registry Prompt (lit ''echo'') \<and>
   dispatch example_registry Prompt (lit ''echo'') (lit ''hi'') = Inl UnknownOperationError \<and>
   dispatch example_registry Tool (lit ''echo'') (lit ''hi'') = Inr (lit ''hi'')"
  using dispatch_unregistered
      [where reg = example_registry and k = Prompt and n = "lit ''echo''"
         and arguments = "lit ''hi''"]
  by (simp add: example_registry_def registered_def dispatch_def echo_def)

end
